theory Spec2Isabelle
  imports Main "HOL-Library.Sublist"
begin

section \<open>Data model\<close>

text \<open>
  The rows of the four tables the note service works on, as the Sequelize models declare
  them (\<^verbatim>\<open>Note\<close>, \<^verbatim>\<open>NoteVersion\<close>, \<^verbatim>\<open>NoteShare\<close>, \<^verbatim>\<open>NoteAttachment\<close>). Primary keys, user
  ids and version numbers are the naturals that \<^verbatim>\<open>autoIncrement\<close> and the counter produce;
  timestamps are naturals. \<^verbatim>\<open>deletedAt\<close> is the nullable column of the paranoid model.
  Of a user only the primary key is read by the service (\<^verbatim>\<open>User.findByPk\<close>).
\<close>

datatype permission = Read | Edit

record Note =
  n_id :: nat
  n_userId :: nat
  n_title :: string
  n_content :: string
  n_version :: nat
  n_createdAt :: nat
  n_deletedAt :: "nat option"

record NoteVersion =
  v_id :: nat
  v_noteId :: nat
  v_title :: string
  v_content :: string
  v_version :: nat
  v_changedBy :: nat

record NoteShare =
  s_id :: nat
  s_noteId :: nat
  s_sharedWithUserId :: nat
  s_permission :: permission

record upload =
  filename :: string
  originalname :: string
  mimetype :: string
  size :: nat
  path :: string

record NoteAttachment =
  a_id :: nat
  a_noteId :: nat
  a_filename :: string
  a_originalFilename :: string
  a_mimeType :: string
  a_fileSize :: nat
  a_filePath :: string

record database =
  d_users :: "nat list"
  d_notes :: "Note list"
  d_versions :: "NoteVersion list"
  d_shares :: "NoteShare list"
  d_attachments :: "NoteAttachment list"

text \<open>
  The messages of the \<^verbatim>\<open>throw new Error(...)\<close> statements of the service, one constructor
  each, in the order in which they first occur in \<^verbatim>\<open>noteService.js\<close>.
\<close>

datatype error =
    NoteNotFoundOrAccessDenied
  | NoteNotFound
  | PermissionDenied
  | VersionConflict
  | NoteNotFoundOrPermissionDenied
  | VersionNotFound
  | CannotShareWithYourself
  | UserNotFound

fun message :: "error \<Rightarrow> string" where
  "message NoteNotFoundOrAccessDenied = ''Note not found or access denied''"
| "message NoteNotFound = ''Note not found''"
| "message PermissionDenied = ''Permission denied''"
| "message VersionConflict =
     ''Note has been modified by another user. Please refresh and try again.''"
| "message NoteNotFoundOrPermissionDenied = ''Note not found or permission denied''"
| "message VersionNotFound = ''Version not found''"
| "message CannotShareWithYourself = ''Cannot share note with yourself''"
| "message UserNotFound = ''User not found''"

section \<open>The cache collaborator\<close>

text \<open>
  The Redis client as \<^verbatim>\<open>invalidateCache\<close> sees it: whether the connection is open, whether
  \<^verbatim>\<open>connect\<close>, \<^verbatim>\<open>keys\<close> and \<^verbatim>\<open>del\<close> reject (the cases the cache tests mock), and the keys
  it holds. \<^verbatim>\<open>getClient()\<close> may in principle hand out no client, hence the option.
\<close>

record redis_client =
  isOpen :: bool
  connect_rejects :: bool
  keys_rejects :: bool
  del_rejects :: bool
  cached :: "string list"

datatype redis_error = RedisError

text \<open>Glob matching of \<^verbatim>\<open>KEYS\<close>, for patterns made of literal characters and \<^verbatim>\<open>*\<close>.\<close>

fun glob :: "string \<Rightarrow> string \<Rightarrow> bool" where
  "glob [] s = (s = [])"
| "glob (p # ps) [] = (p = CHR ''*'' \<and> glob ps [])"
| "glob (p # ps) (c # cs) =
     (if p = CHR ''*'' then glob ps (c # cs) \<or> glob (p # ps) cs
      else p = c \<and> glob ps cs)"

text \<open>JavaScript's rendering of a non-negative integer inside a template literal.\<close>

fun digits :: "nat \<Rightarrow> string" where
  "digits n =
     (if n < 10 then [char_of (48 + n)]
      else digits (n div 10) @ [char_of (48 + n mod 10)])"

declare digits.simps [simp del]

definition notes_pattern :: "nat \<Rightarrow> string" where
  "notes_pattern userId = ''cache:/api/v1/notes*:'' @ digits userId"

section \<open>The state of the service\<close>

text \<open>
  The service works on three things: the relational store, the Redis client, and (for the
  order of the calls to the collaborators) the sequence of transaction and invalidation
  calls made so far.
\<close>

datatype event = TxBegin | TxCommit | TxRollback | Invalidate string

record sys =
  db :: database
  redis :: "redis_client option"
  trace :: "event list"

definition emit :: "event \<Rightarrow> sys \<Rightarrow> sys" where
  "emit e s = s\<lparr>trace := trace s @ [e]\<rparr>"

text \<open>
  The body of the outer \<^verbatim>\<open>try\<close> of \<^verbatim>\<open>invalidateCache\<close>. \<open>Inl\<close> is an exception that
  reaches the outer \<^verbatim>\<open>catch\<close>; \<open>Inr\<close> is normal completion, which includes the early
  \<^verbatim>\<open>return\<close> of the inner \<^verbatim>\<open>catch\<close> when the connection cannot be opened (calling
  \<^verbatim>\<open>connect\<close> on a missing client throws inside the inner \<^verbatim>\<open>try\<close> as well).
\<close>

definition purge :: "string \<Rightarrow> redis_client \<Rightarrow> redis_error + redis_client" where
  "purge pattern c =
     (if keys_rejects c then Inl RedisError
      else let keys = filter (glob pattern) (cached c)
           in if length keys > 0
              then (if del_rejects c then Inl RedisError
                    else Inr (c\<lparr>cached := filter (\<lambda>k. k \<notin> set keys) (cached c)\<rparr>))
              else Inr c)"

definition invalidate_try ::
  "string \<Rightarrow> redis_client option \<Rightarrow> redis_error + redis_client option" where
  "invalidate_try pattern redisClient =
     (case redisClient of
        None \<Rightarrow> Inr None
      | Some c \<Rightarrow>
          if \<not> isOpen c
          then (if connect_rejects c then Inr (Some c)
                else map_sum id Some (purge pattern (c\<lparr>isOpen := True\<rparr>)))
          else map_sum id Some (purge pattern c))"

text \<open>
  \<^verbatim>\<open>invalidateCache\<close>: the outer \<^verbatim>\<open>catch\<close> logs and does not rethrow, so the function has
  no error result. A rejected \<^verbatim>\<open>keys\<close> or \<^verbatim>\<open>del\<close> leaves the cached keys as they were
  (the connection, once opened, stays open).
\<close>

definition opened :: "redis_client option \<Rightarrow> redis_client option" where
  "opened redisClient =
     (case redisClient of
        None \<Rightarrow> None
      | Some c \<Rightarrow> Some (if \<not> isOpen c \<and> \<not> connect_rejects c then c\<lparr>isOpen := True\<rparr> else c))"

definition invalidateCache :: "string \<Rightarrow> sys \<Rightarrow> sys" where
  "invalidateCache pattern s =
     (let s1 = emit (Invalidate pattern) s
      in case invalidate_try pattern (redis s1) of
           Inr client \<Rightarrow> s1\<lparr>redis := client\<rparr>
         | Inl err \<Rightarrow> s1\<lparr>redis := opened (redis s1)\<rparr>)"

section \<open>The store\<close>

text \<open>
  An \<^verbatim>\<open>autoIncrement\<close> key is larger than every key of the table. Rows are appended by
  \<^verbatim>\<open>create\<close>; \<^verbatim>\<open>save\<close> and \<^verbatim>\<open>destroy\<close> rewrite the row with the instance's primary key.
  The store is taken to accept every write: request validation happens in the route
  validators before the service is called, and storage faults are outside this model.
\<close>

definition next_id :: "nat list \<Rightarrow> nat" where
  "next_id ids = Suc (fold max ids 0)"

definition live :: "Note \<Rightarrow> bool" where
  "live n = (n_deletedAt n = None)"

definition Note_create :: "nat \<Rightarrow> nat \<Rightarrow> string \<Rightarrow> string \<Rightarrow> nat \<Rightarrow> database \<Rightarrow> Note \<times> database" where
  "Note_create now userId title content version d =
     (let n = \<lparr>n_id = next_id (map n_id (d_notes d)), n_userId = userId, n_title = title,
                n_content = content, n_version = version, n_createdAt = now,
                n_deletedAt = None\<rparr>
      in (n, d\<lparr>d_notes := d_notes d @ [n]\<rparr>))"

definition Note_save :: "Note \<Rightarrow> database \<Rightarrow> database" where
  "Note_save n d = d\<lparr>d_notes := map (\<lambda>m. if n_id m = n_id n then n else m) (d_notes d)\<rparr>"

definition Note_destroy :: "nat \<Rightarrow> Note \<Rightarrow> database \<Rightarrow> database" where
  "Note_destroy now n d = Note_save (n\<lparr>n_deletedAt := Some now\<rparr>) d"

definition NoteVersion_create ::
  "nat \<Rightarrow> string \<Rightarrow> string \<Rightarrow> nat \<Rightarrow> nat \<Rightarrow> database \<Rightarrow> database" where
  "NoteVersion_create noteId title content version changedBy d =
     d\<lparr>d_versions := d_versions d @
        [\<lparr>v_id = next_id (map v_id (d_versions d)), v_noteId = noteId, v_title = title,
          v_content = content, v_version = version, v_changedBy = changedBy\<rparr>]\<rparr>"

definition NoteVersion_findOne :: "nat \<Rightarrow> nat \<Rightarrow> database \<Rightarrow> NoteVersion option" where
  "NoteVersion_findOne noteId version d =
     find (\<lambda>v. v_noteId v = noteId \<and> v_version v = version) (d_versions d)"

section \<open>updateNote\<close>

text \<open>
  The statements between \<^verbatim>\<open>transaction()\<close> and \<^verbatim>\<open>commit()\<close>, run on the transaction's view
  of the store. \<open>Inl\<close> is a \<^verbatim>\<open>throw\<close>; \<open>Inr\<close> carries the instance that is returned and the
  store as the transaction leaves it.
\<close>

definition edit_shares :: "nat \<Rightarrow> nat \<Rightarrow> database \<Rightarrow> NoteShare list" where
  "edit_shares noteId userId d =
     filter (\<lambda>sh. s_noteId sh = noteId \<and> s_sharedWithUserId sh = userId \<and>
                   s_permission sh = Edit) (d_shares d)"

definition update_tx ::
  "nat \<Rightarrow> nat \<Rightarrow> string \<Rightarrow> string \<Rightarrow> nat \<Rightarrow> database \<Rightarrow> error + Note \<times> database" where
  "update_tx noteId userId title content expectedVersion d =
     (case find (\<lambda>n. n_id n = noteId \<and> live n) (d_notes d) of
        None \<Rightarrow> Inl NoteNotFound
      | Some n \<Rightarrow>
          let isOwner = (n_userId n = userId);
              hasEditPermission = (length (edit_shares (n_id n) userId d) > 0)
          in if \<not> isOwner \<and> \<not> hasEditPermission then Inl PermissionDenied
             else if n_version n \<noteq> expectedVersion then Inl VersionConflict
             else let n' = n\<lparr>n_title := title, n_content := content,
                              n_version := n_version n + 1\<rparr>;
                      d1 = Note_save n' d;
                      d2 = NoteVersion_create (n_id n') title content (n_version n') userId d1
                  in Inr (n', d2))"

text \<open>
  The \<^verbatim>\<open>try\<close>/\<^verbatim>\<open>catch\<close> around it: the writes reach the store at \<^verbatim>\<open>commit\<close>, the cache is
  invalidated after it, and a \<^verbatim>\<open>throw\<close> is answered by \<^verbatim>\<open>rollback\<close>, which drops the
  transaction's view, and rethrown.
\<close>

definition in_transaction ::
  "nat \<Rightarrow> (database \<Rightarrow> error + Note \<times> database) \<Rightarrow> sys \<Rightarrow> (error + Note) \<times> sys" where
  "in_transaction userId body s =
     (let s1 = emit TxBegin s
      in case body (db s1) of
           Inr (n, d) \<Rightarrow>
             let s2 = emit TxCommit (s1\<lparr>db := d\<rparr>);
                 s3 = invalidateCache (notes_pattern userId) s2
             in (Inr n, s3)
         | Inl e \<Rightarrow> (Inl e, emit TxRollback s1))"

definition updateNote ::
  "nat \<Rightarrow> nat \<Rightarrow> string \<Rightarrow> string \<Rightarrow> nat \<Rightarrow> sys \<Rightarrow> (error + Note) \<times> sys" where
  "updateNote noteId userId title content expectedVersion =
     in_transaction userId (update_tx noteId userId title content expectedVersion)"

section \<open>revertToVersion\<close>

definition revert_tx :: "nat \<Rightarrow> nat \<Rightarrow> nat \<Rightarrow> database \<Rightarrow> error + Note \<times> database" where
  "revert_tx noteId userId targetVersion d =
     (case find (\<lambda>n. n_id n = noteId \<and> n_userId n = userId \<and> live n) (d_notes d) of
        None \<Rightarrow> Inl NoteNotFoundOrPermissionDenied
      | Some n \<Rightarrow>
          (case NoteVersion_findOne noteId targetVersion d of
             None \<Rightarrow> Inl VersionNotFound
           | Some targetVersionRecord \<Rightarrow>
               let n' = n\<lparr>n_title := v_title targetVersionRecord,
                           n_content := v_content targetVersionRecord,
                           n_version := n_version n + 1\<rparr>;
                   d1 = Note_save n' d;
                   d2 = NoteVersion_create (n_id n') (v_title targetVersionRecord)
                          (v_content targetVersionRecord) (n_version n') userId d1
               in Inr (n', d2)))"

definition revertToVersion :: "nat \<Rightarrow> nat \<Rightarrow> nat \<Rightarrow> sys \<Rightarrow> (error + Note) \<times> sys" where
  "revertToVersion noteId userId targetVersion =
     in_transaction userId (revert_tx noteId userId targetVersion)"

section \<open>createNote and deleteNote\<close>

text \<open>Neither runs in a transaction. \<open>now\<close> is the time Sequelize stamps the row with.\<close>

definition createNote :: "nat \<Rightarrow> nat \<Rightarrow> string \<Rightarrow> string \<Rightarrow> sys \<Rightarrow> Note \<times> sys" where
  "createNote now userId title content s =
     (let (n, d1) = Note_create now userId title content 1 (db s);
          d2 = NoteVersion_create (n_id n) title content 1 userId d1
      in (n, invalidateCache (notes_pattern userId) (s\<lparr>db := d2\<rparr>)))"

definition deleteNote :: "nat \<Rightarrow> nat \<Rightarrow> nat \<Rightarrow> sys \<Rightarrow> (error + string) \<times> sys" where
  "deleteNote now noteId userId s =
     (case find (\<lambda>n. n_id n = noteId \<and> n_userId n = userId \<and> live n) (d_notes (db s)) of
        None \<Rightarrow> (Inl NoteNotFoundOrPermissionDenied, s)
      | Some n \<Rightarrow>
          (Inr ''Note deleted successfully'',
           invalidateCache (notes_pattern userId) (s\<lparr>db := Note_destroy now n (db s)\<rparr>)))"

section \<open>shareNote and addAttachment\<close>

definition NoteShare_findOrCreate ::
  "nat \<Rightarrow> nat \<Rightarrow> permission \<Rightarrow> database \<Rightarrow> (NoteShare \<times> bool) \<times> database" where
  "NoteShare_findOrCreate noteId sharedWithUserId permission d =
     (case find (\<lambda>sh. s_noteId sh = noteId \<and> s_sharedWithUserId sh = sharedWithUserId)
             (d_shares d) of
        Some sh \<Rightarrow> ((sh, False), d)
      | None \<Rightarrow>
          let sh = \<lparr>s_id = next_id (map s_id (d_shares d)), s_noteId = noteId,
                     s_sharedWithUserId = sharedWithUserId, s_permission = permission\<rparr>
          in ((sh, True), d\<lparr>d_shares := d_shares d @ [sh]\<rparr>))"

definition NoteShare_save :: "NoteShare \<Rightarrow> database \<Rightarrow> database" where
  "NoteShare_save sh d =
     d\<lparr>d_shares := map (\<lambda>r. if s_id r = s_id sh then sh else r) (d_shares d)\<rparr>"

text \<open>\<^verbatim>\<open>permission || "read"\<close>: an absent permission is \<^verbatim>\<open>read\<close>.\<close>

definition or_read :: "permission option \<Rightarrow> permission" where
  "or_read permission = (case permission of None \<Rightarrow> Read | Some p \<Rightarrow> p)"

definition shareNote ::
  "nat \<Rightarrow> nat \<Rightarrow> nat \<Rightarrow> permission option \<Rightarrow> sys \<Rightarrow> (error + NoteShare) \<times> sys" where
  "shareNote noteId ownerId sharedWithUserId permission s =
     (if ownerId = sharedWithUserId then (Inl CannotShareWithYourself, s)
      else case find (\<lambda>n. n_id n = noteId \<and> n_userId n = ownerId \<and> live n)
                  (d_notes (db s)) of
        None \<Rightarrow> (Inl NoteNotFoundOrPermissionDenied, s)
      | Some n \<Rightarrow>
          if sharedWithUserId \<notin> set (d_users (db s)) then (Inl UserNotFound, s)
          else let ((share, created), d1) =
                     NoteShare_findOrCreate noteId sharedWithUserId (or_read permission) (db s);
                   share' = (if \<not> created then share\<lparr>s_permission := or_read permission\<rparr>
                             else share);
                   d2 = (if \<not> created then NoteShare_save share' d1 else d1);
                   s1 = invalidateCache (notes_pattern ownerId) (s\<lparr>db := d2\<rparr>);
                   s2 = invalidateCache (notes_pattern sharedWithUserId) s1
               in (Inr share', s2))"

definition NoteAttachment_create :: "nat \<Rightarrow> upload \<Rightarrow> database \<Rightarrow> NoteAttachment \<times> database" where
  "NoteAttachment_create noteId file d =
     (let a = \<lparr>a_id = next_id (map a_id (d_attachments d)), a_noteId = noteId,
                a_filename = filename file, a_originalFilename = originalname file,
                a_mimeType = mimetype file, a_fileSize = size file, a_filePath = path file\<rparr>
      in (a, d\<lparr>d_attachments := d_attachments d @ [a]\<rparr>))"

definition addAttachment :: "nat \<Rightarrow> nat \<Rightarrow> upload \<Rightarrow> sys \<Rightarrow> (error + NoteAttachment) \<times> sys" where
  "addAttachment noteId userId file s =
     (case find (\<lambda>n. n_id n = noteId \<and>
                      (n_userId n = userId \<or> length (edit_shares (n_id n) userId (db s)) > 0) \<and>
                      live n) (d_notes (db s)) of
        None \<Rightarrow> (Inl NoteNotFoundOrPermissionDenied, s)
      | Some n \<Rightarrow>
          let (a, d1) = NoteAttachment_create noteId file (db s)
          in (Inr a, invalidateCache (notes_pattern userId) (s\<lparr>db := d1\<rparr>)))"

section \<open>Reads\<close>

text \<open>
  The three read queries share one condition on a note: it is not soft-deleted, and the
  caller owns it or has a share on it.
\<close>

definition shared_with :: "database \<Rightarrow> nat \<Rightarrow> Note \<Rightarrow> bool" where
  "shared_with d userId n =
     (\<exists>sh \<in> set (d_shares d). s_noteId sh = n_id n \<and> s_sharedWithUserId sh = userId)"

definition readable :: "database \<Rightarrow> nat \<Rightarrow> Note \<Rightarrow> bool" where
  "readable d userId n = ((n_userId n = userId \<or> shared_with d userId n) \<and> live n)"

text \<open>
  How Sequelize loads a \<^verbatim>\<open>hasMany\<close> association named in \<^verbatim>\<open>include\<close>: in the JOIN of the
  main query, or, with \<^verbatim>\<open>separate: true\<close>, by a query of its own. An \<^verbatim>\<open>order\<close> written
  inside the include is an option of that separate query; the JOIN does not carry it, and
  the associated rows come back as the table yields them.
\<close>

datatype direction = ASC | DESC

record 'a include_options =
  order :: "(('a \<Rightarrow> nat) \<times> direction) option"
  separate :: bool

definition ordered :: "('a \<Rightarrow> nat) \<times> direction \<Rightarrow> 'a list \<Rightarrow> 'a list" where
  "ordered ord rows =
     (case snd ord of ASC \<Rightarrow> sort_key (fst ord) rows | DESC \<Rightarrow> rev (sort_key (fst ord) rows))"

definition load_many :: "'a include_options \<Rightarrow> 'a list \<Rightarrow> 'a list" where
  "load_many inc rows =
     (if separate inc then (case order inc of None \<Rightarrow> rows | Some ord \<Rightarrow> ordered ord rows)
      else rows)"

record note_view =
  the_note :: Note
  the_versions :: "NoteVersion list"
  the_attachments :: "NoteAttachment list"
  the_shares :: "NoteShare list"

definition getNoteById :: "nat \<Rightarrow> nat \<Rightarrow> database \<Rightarrow> error + note_view" where
  "getNoteById noteId userId d =
     (case find (\<lambda>n. n_id n = noteId \<and> readable d userId n) (d_notes d) of
        None \<Rightarrow> Inl NoteNotFoundOrAccessDenied
      | Some n \<Rightarrow>
          Inr \<lparr>the_note = n,
               the_versions =
                 load_many \<lparr>order = Some (v_version, DESC), separate = False\<rparr>
                   (filter (\<lambda>v. v_noteId v = n_id n) (d_versions d)),
               the_attachments = filter (\<lambda>a. a_noteId a = n_id n) (d_attachments d),
               the_shares =
                 filter (\<lambda>sh. s_noteId sh = n_id n \<and>
                               (n_userId n = userId \<or> s_sharedWithUserId sh = userId))
                   (d_shares d)\<rparr>)"

definition getAllNotes :: "nat \<Rightarrow> database \<Rightarrow> Note list" where
  "getAllNotes userId d = ordered (n_createdAt, DESC) (filter (readable d userId) (d_notes d))"

text \<open>
  The keyword condition (\<^verbatim>\<open>MATCH ... AGAINST\<close> or \<^verbatim>\<open>LIKE\<close> on title or content) is
  evaluated by MySQL; it is the parameter \<open>matches\<close> here.
\<close>

definition searchNotesByKeywords ::
  "(string \<Rightarrow> Note \<Rightarrow> bool) \<Rightarrow> nat \<Rightarrow> string \<Rightarrow> database \<Rightarrow> Note list" where
  "searchNotesByKeywords matches userId keywords d =
     ordered (n_createdAt, DESC)
       (filter (\<lambda>n. readable d userId n \<and> matches keywords n) (d_notes d))"

section \<open>Histories of requests\<close>

text \<open>
  The requests that change the store, with the registration of a user (a new row of
  \<^verbatim>\<open>users\<close>) and a change of the Redis client's condition between two requests.
\<close>

datatype request =
    Register
  | CreateNote nat nat string string
  | UpdateNote nat nat string string nat
  | DeleteNote nat nat nat
  | RevertToVersion nat nat nat
  | ShareNote nat nat nat "permission option"
  | AddAttachment nat nat upload
  | RedisBecomes "redis_client option"

fun perform :: "request \<Rightarrow> sys \<Rightarrow> sys" where
  "perform Register s =
     s\<lparr>db := (db s)\<lparr>d_users := d_users (db s) @ [next_id (d_users (db s))]\<rparr>\<rparr>"
| "perform (CreateNote now userId title content) s = snd (createNote now userId title content s)"
| "perform (UpdateNote noteId userId title content expectedVersion) s =
     snd (updateNote noteId userId title content expectedVersion s)"
| "perform (DeleteNote now noteId userId) s = snd (deleteNote now noteId userId s)"
| "perform (RevertToVersion noteId userId targetVersion) s =
     snd (revertToVersion noteId userId targetVersion s)"
| "perform (ShareNote noteId ownerId sharedWithUserId permission) s =
     snd (shareNote noteId ownerId sharedWithUserId permission s)"
| "perform (AddAttachment noteId userId file) s = snd (addAttachment noteId userId file s)"
| "perform (RedisBecomes client) s = s\<lparr>redis := client\<rparr>"

definition run :: "request list \<Rightarrow> sys \<Rightarrow> sys" where
  "run requests s = fold perform requests s"

definition empty_store :: database where
  "empty_store = \<lparr>d_users = [], d_notes = [], d_versions = [], d_shares = [], d_attachments = []\<rparr>"

definition start :: "redis_client option \<Rightarrow> sys" where
  "start client = \<lparr>db = empty_store, redis = client, trace = []\<rparr>"

section \<open>Conditions on a store and a running example\<close>


text \<open>
  Four users; user 1 creates a note and updates it once, then shares it with user 2 for
  editing and with user 3 for reading. User 4 has nothing to do with the note.
\<close>

definition example :: sys where
  "example =
     run [Register, Register, Register, Register,
          CreateNote 10 1 ''groceries'' ''milk'',
          UpdateNote 1 1 ''groceries'' ''milk, eggs'' 1,
          ShareNote 1 1 2 (Some Edit),
          ShareNote 1 1 3 (Some Read)] (start None)"

definition example_note :: Note where
  "example_note =
     \<lparr>n_id = 1, n_userId = 1, n_title = ''groceries'', n_content = ''milk, eggs'',
      n_version = 2, n_createdAt = 10, n_deletedAt = None\<rparr>"


text \<open>
  No live note with this id belongs to this user: the query of \<^verbatim>\<open>shareNote\<close>,
  \<^verbatim>\<open>deleteNote\<close> and \<^verbatim>\<open>revertToVersion\<close> finds nothing.
\<close>

definition no_such_owner :: "database \<Rightarrow> nat \<Rightarrow> nat \<Rightarrow> bool" where
  "no_such_owner d noteId ownerId =
     (\<forall>n \<in> set (d_notes d). \<not> (n_id n = noteId \<and> n_userId n = ownerId \<and> live n))"

text \<open>Every row with this id is soft-deleted.\<close>

definition deleted_in :: "database \<Rightarrow> nat \<Rightarrow> bool" where
  "deleted_in d noteId = (\<forall>m \<in> set (d_notes d). n_id m = noteId \<longrightarrow> \<not> live m)"

text \<open>
  The share rows of a note for a user, and the two constraints of the table
  \<^verbatim>\<open>note_shares\<close>: the primary key and the unique index on \<^verbatim>\<open>(noteId, sharedWithUserId)\<close>.
\<close>

definition grants :: "database \<Rightarrow> nat \<Rightarrow> nat \<Rightarrow> NoteShare list" where
  "grants d noteId userId =
     filter (\<lambda>sh. s_noteId sh = noteId \<and> s_sharedWithUserId sh = userId) (d_shares d)"

definition share_keys :: "database \<Rightarrow> bool" where
  "share_keys d =
     (distinct (map s_id (d_shares d)) \<and>
      distinct (map (\<lambda>sh. (s_noteId sh, s_sharedWithUserId sh)) (d_shares d)))"

section \<open>Basic facts\<close>

lemma example_db:
  "db example =
     \<lparr>d_users = [1, 2, 3, 4],
      d_notes = [example_note],
      d_versions =
        [\<lparr>v_id = 1, v_noteId = 1, v_title = ''groceries'', v_content = ''milk'',
          v_version = 1, v_changedBy = 1\<rparr>,
         \<lparr>v_id = 2, v_noteId = 1, v_title = ''groceries'', v_content = ''milk, eggs'',
          v_version = 2, v_changedBy = 1\<rparr>],
      d_shares =
        [\<lparr>s_id = 1, s_noteId = 1, s_sharedWithUserId = 2, s_permission = Edit\<rparr>,
         \<lparr>s_id = 2, s_noteId = 1, s_sharedWithUserId = 3, s_permission = Read\<rparr>],
      d_attachments = []\<rparr>"
  by code_simp

lemma example_note_fields [simp]:
  "n_id example_note = 1" "n_userId example_note = 1" "n_version example_note = 2"
  "n_title example_note = ''groceries''" "n_content example_note = ''milk, eggs''"
  "live example_note"
  by (simp_all add: example_note_def live_def)

text \<open>A row that satisfies a condition which fixes its key is what \<open>find\<close> returns.\<close>

lemma find_unique_key:
  assumes "distinct (map key xs)" and "x \<in> set xs" and "P x"
      and "\<And>y. P y \<Longrightarrow> key y = key x"
  shows "find P xs = Some x"
  using assms(1,2)
proof (induction xs)
  case Nil
  then show ?case by simp
next
  case (Cons a xs)
  show ?case
  proof (cases "a = x")
    case True
    with assms(3) show ?thesis by simp
  next
    case False
    with Cons.prems have xin: "x \<in> set xs" by simp
    have "\<not> P a"
    proof
      assume "P a"
      then have "key a = key x" by (rule assms(4))
      moreover from xin have "key x \<in> set (map key xs)" by simp
      ultimately show False using Cons.prems(1) by simp
    qed
    moreover have "find P xs = Some x"
      using Cons.IH Cons.prems(1) xin by simp
    ultimately show ?thesis by simp
  qed
qed

lemma db_emit [simp]: "db (emit e s) = db s"
  by (simp add: emit_def)

lemma trace_emit [simp]: "trace (emit e s) = trace s @ [e]"
  by (simp add: emit_def)

lemma redis_emit [simp]: "redis (emit e s) = redis s"
  by (simp add: emit_def)

lemma db_invalidateCache [simp]: "db (invalidateCache pattern s) = db s"
  by (simp add: invalidateCache_def emit_def Let_def split: sum.splits)

lemma trace_invalidateCache [simp]:
  "trace (invalidateCache pattern s) = trace s @ [Invalidate pattern]"
  by (simp add: invalidateCache_def emit_def Let_def split: sum.splits)


lemma in_transaction_Inl:
  "body (db s) = Inl e \<Longrightarrow>
   in_transaction userId body s = (Inl e, emit TxRollback (emit TxBegin s))"
  by (simp add: in_transaction_def Let_def)


section \<open>The optimistic lock of updateNote\<close>



lemma find_None_all: "(find P xs = None) = (\<forall>x \<in> set xs. \<not> P x)"
  by (induction xs) auto


lemma find_owned:
  assumes pk: "distinct (map n_id (d_notes d))"
      and row: "n \<in> set (d_notes d)" "n_id n = noteId"
  shows "find (\<lambda>m. n_id m = noteId \<and> n_userId m = userId \<and> live m) (d_notes d) =
           (if n_userId n = userId \<and> live n then Some n else None)"
proof (cases "n_userId n = userId \<and> live n")
  case True
  then have "find (\<lambda>m. n_id m = noteId \<and> n_userId m = userId \<and> live m) (d_notes d) = Some n"
    using pk row by (intro find_unique_key [where key = n_id]) auto
  with True show ?thesis by simp
next
  case False
  have "\<forall>m \<in> set (d_notes d). \<not> (n_id m = noteId \<and> n_userId m = userId \<and> live m)"
  proof
    fix m assume m: "m \<in> set (d_notes d)"
    show "\<not> (n_id m = noteId \<and> n_userId m = userId \<and> live m)"
    proof
      assume a: "n_id m = noteId \<and> n_userId m = userId \<and> live m"
      with row have "n_id m = n_id n" by simp
      with pk m row(1) have "m = n" by (simp add: distinct_map inj_on_def)
      with a False show False by simp
    qed
  qed
  then have "find (\<lambda>m. n_id m = noteId \<and> n_userId m = userId \<and> live m) (d_notes d) = None"
    by (simp add: find_None_all)
  with False show ?thesis by simp
qed

section \<open>Reverting\<close>






section \<open>Who may update and who may revert\<close>



section \<open>Cache invalidation\<close>




section \<open>Refused shares\<close>

text \<open>
  Claim C8. When the owner and the target are the same user, or no live note with this id
  belongs to the caller, or the target is not a user, \<^verbatim>\<open>shareNote\<close> fails, with the error
  of the first of these checks that applies, and the state is exactly what it was: no
  share row is created or changed, and nothing else is done.
\<close>

theorem share_rejections:
  assumes "ownerId = sharedWithUserId \<or> no_such_owner (db s) noteId ownerId \<or>
           sharedWithUserId \<notin> set (d_users (db s))"
  shows "shareNote noteId ownerId sharedWithUserId permission s =
           (Inl (if ownerId = sharedWithUserId then CannotShareWithYourself
                 else if no_such_owner (db s) noteId ownerId then NoteNotFoundOrPermissionDenied
                 else UserNotFound), s)"
proof (cases "ownerId = sharedWithUserId")
  case True
  then show ?thesis by (simp add: shareNote_def)
next
  case distinct_users: False
  show ?thesis
  proof (cases "no_such_owner (db s) noteId ownerId")
    case True
    then have "find (\<lambda>n. n_id n = noteId \<and> n_userId n = ownerId \<and> live n) (d_notes (db s)) = None"
      by (simp add: no_such_owner_def find_None_all)
    with True distinct_users show ?thesis by (simp add: shareNote_def)
  next
    case False
    then obtain n where
      "find (\<lambda>n. n_id n = noteId \<and> n_userId n = ownerId \<and> live n) (d_notes (db s)) = Some n"
      by (cases "find (\<lambda>n. n_id n = noteId \<and> n_userId n = ownerId \<and> live n) (d_notes (db s))")
        (auto simp: no_such_owner_def find_None_all)
    moreover from assms distinct_users False
    have "sharedWithUserId \<notin> set (d_users (db s))" by simp
    ultimately show ?thesis
      using distinct_users False by (simp add: shareNote_def)
  qed
qed

text \<open>
  In the example: user 1 sharing with user 1; user 2, who does not own note 1, sharing it;
  user 1 sharing with user 8, who does not exist.
\<close>

theorem share_rejections_witness:
  "shareNote 1 1 1 (Some Edit) example = (Inl CannotShareWithYourself, example) \<and>
   shareNote 1 2 3 (Some Edit) example = (Inl NoteNotFoundOrPermissionDenied, example) \<and>
   shareNote 1 1 8 (Some Edit) example = (Inl UserNotFound, example)"
proof -
  have a: "no_such_owner (db example) 1 2"
    by (simp add: no_such_owner_def example_db)
  have b: "\<not> no_such_owner (db example) 1 1"
    by (simp add: no_such_owner_def example_db)
  have c: "8 \<notin> set (d_users (db example))"
    by (simp add: example_db)
  show ?thesis
    using share_rejections [of 1 1 example 1 "Some Edit"]
      share_rejections [of 2 3 example 1 "Some Edit"]
      share_rejections [of 1 8 example 1 "Some Edit"] a b c
    by simp
qed

section \<open>Soft deletion\<close>

lemma set_ordered [simp]: "set (ordered ord rows) = set rows"
  by (simp add: ordered_def split: direction.splits)

lemma find_not_live:
  assumes "\<forall>m \<in> set ns. n_id m = noteId \<longrightarrow> \<not> live m"
  shows "find (\<lambda>m. n_id m = noteId \<and> Q m \<and> live m) ns = None"
    and "find (\<lambda>m. n_id m = noteId \<and> live m) ns = None"
  using assms by (auto simp: find_None_all)

lemma deleted_reads:
  assumes "deleted_in d noteId"
  shows "getNoteById noteId u d = Inl NoteNotFoundOrAccessDenied"
    and "noteId \<notin> n_id ` set (getAllNotes u d)"
    and "noteId \<notin> n_id ` set (searchNotesByKeywords matches u k d)"
proof -
  have "find (\<lambda>m. n_id m = noteId \<and> readable d u m) (d_notes d) = None"
    using assms by (auto simp: find_None_all deleted_in_def readable_def)
  then show "getNoteById noteId u d = Inl NoteNotFoundOrAccessDenied"
    by (simp add: getNoteById_def)
  show "noteId \<notin> n_id ` set (getAllNotes u d)"
    using assms by (auto simp: getAllNotes_def deleted_in_def readable_def)
  show "noteId \<notin> n_id ` set (searchNotesByKeywords matches u k d)"
    using assms by (auto simp: searchNotesByKeywords_def deleted_in_def readable_def)
qed

lemma deleted_writes:
  assumes "deleted_in (db s) noteId"
  shows "fst (updateNote noteId u t c v s) = Inl NoteNotFound"
    and "fst (revertToVersion noteId u target s) = Inl NoteNotFoundOrPermissionDenied"
    and "fst (shareNote noteId u w p s) =
           Inl (if u = w then CannotShareWithYourself else NoteNotFoundOrPermissionDenied)"
    and "fst (addAttachment noteId u file s) = Inl NoteNotFoundOrPermissionDenied"
    and "fst (deleteNote now noteId u s) = Inl NoteNotFoundOrPermissionDenied"
proof -
  have a: "find (\<lambda>m. n_id m = noteId \<and> live m) (d_notes (db s)) = None"
    and b: "find (\<lambda>m. n_id m = noteId \<and> n_userId m = u \<and> live m) (d_notes (db s)) = None"
    and c: "find (\<lambda>m. n_id m = noteId \<and>
              (n_userId m = u \<or> length (edit_shares (n_id m) u (db s)) > 0) \<and> live m)
              (d_notes (db s)) = None"
    using assms by (auto simp: find_None_all deleted_in_def)
  show "fst (updateNote noteId u t c v s) = Inl NoteNotFound"
    using a by (simp add: updateNote_def in_transaction_Inl update_tx_def)
  show "fst (revertToVersion noteId u target s) = Inl NoteNotFoundOrPermissionDenied"
    using b by (simp add: revertToVersion_def in_transaction_Inl revert_tx_def)
  show "fst (shareNote noteId u w p s) =
           Inl (if u = w then CannotShareWithYourself else NoteNotFoundOrPermissionDenied)"
    using b by (simp add: shareNote_def)
  show "fst (addAttachment noteId u file s) = Inl NoteNotFoundOrPermissionDenied"
    using c by (simp add: addAttachment_def)
  show "fst (deleteNote now noteId u s) = Inl NoteNotFoundOrPermissionDenied"
    using b by (simp add: deleteNote_def)
qed

text \<open>
  Claim C10. Let \<open>n\<close> be a live note. For a caller who is not its owner (an editor
  included) \<^verbatim>\<open>deleteNote\<close> fails and the state is exactly what it was. For the owner it
  succeeds, and the store afterwards differs from the one before in one thing only: the
  row of the note carries \<^verbatim>\<open>deletedAt\<close>. The row is still there and the history rows are
  untouched, but the note is gone for every caller: \<^verbatim>\<open>getNoteById\<close> answers as for a
  missing note, the note is in no result of \<^verbatim>\<open>getAllNotes\<close> or of a search, and updating
  or sharing it fails.
\<close>

theorem delete_owner_only:
  assumes pk: "distinct (map n_id (d_notes (db s)))"
      and row: "n \<in> set (d_notes (db s))" "n_id n = noteId" "live n"
  shows "(n_userId n \<noteq> userId \<longrightarrow>
            deleteNote now noteId userId s = (Inl NoteNotFoundOrPermissionDenied, s)) \<and>
         (n_userId n = userId \<longrightarrow>
            fst (deleteNote now noteId userId s) = Inr ''Note deleted successfully'' \<and>
            db (snd (deleteNote now noteId userId s)) =
              (db s)\<lparr>d_notes := map (\<lambda>m. if n_id m = noteId then n\<lparr>n_deletedAt := Some now\<rparr>
                                          else m) (d_notes (db s))\<rparr> \<and>
            n\<lparr>n_deletedAt := Some now\<rparr> \<in> set (d_notes (db (snd (deleteNote now noteId userId s)))) \<and>
            (\<forall>u. getNoteById noteId u (db (snd (deleteNote now noteId userId s))) =
                   Inl NoteNotFoundOrAccessDenied) \<and>
            (\<forall>u. noteId \<notin> n_id ` set (getAllNotes u (db (snd (deleteNote now noteId userId s))))) \<and>
            (\<forall>matches u k. noteId \<notin> n_id ` set (searchNotesByKeywords matches u k
                   (db (snd (deleteNote now noteId userId s))))) \<and>
            (\<forall>u t c v. fst (updateNote noteId u t c v (snd (deleteNote now noteId userId s))) =
                   Inl NoteNotFound) \<and>
            (\<forall>u w p. fst (shareNote noteId u w p (snd (deleteNote now noteId userId s))) =
                   Inl (if u = w then CannotShareWithYourself
                        else NoteNotFoundOrPermissionDenied)))"
proof (intro conjI impI)
  assume "n_userId n \<noteq> userId"
  then have "find (\<lambda>m. n_id m = noteId \<and> n_userId m = userId \<and> live m) (d_notes (db s)) = None"
    using find_owned [OF pk row(1,2), of userId] by simp
  then show "deleteNote now noteId userId s = (Inl NoteNotFoundOrPermissionDenied, s)"
    by (simp add: deleteNote_def)
next
  assume owner: "n_userId n = userId"
  have found: "find (\<lambda>m. n_id m = noteId \<and> n_userId m = userId \<and> live m) (d_notes (db s)) = Some n"
    using find_owned [OF pk row(1,2), of userId] owner row(3) by simp
  have eq: "deleteNote now noteId userId s =
      (Inr ''Note deleted successfully'',
       invalidateCache (notes_pattern userId)
         (s\<lparr>db := (db s)\<lparr>d_notes := map (\<lambda>m. if n_id m = noteId then n\<lparr>n_deletedAt := Some now\<rparr>
                                          else m) (d_notes (db s))\<rparr>\<rparr>))"
    using found row(2) by (simp add: deleteNote_def Note_destroy_def Note_save_def)
  show "fst (deleteNote now noteId userId s) = Inr ''Note deleted successfully''"
    by (simp add: eq)
  show after: "db (snd (deleteNote now noteId userId s)) =
      (db s)\<lparr>d_notes := map (\<lambda>m. if n_id m = noteId then n\<lparr>n_deletedAt := Some now\<rparr>
                                          else m) (d_notes (db s))\<rparr>"
    by (simp add: eq)
  show "n\<lparr>n_deletedAt := Some now\<rparr> \<in> set (d_notes (db (snd (deleteNote now noteId userId s))))"
    unfolding after using row(1,2) by (auto simp: image_iff intro!: bexI [of _ n])
  have gone: "deleted_in (db (snd (deleteNote now noteId userId s))) noteId"
    unfolding after using row(2) by (auto simp: deleted_in_def live_def)
  show "\<forall>u. getNoteById noteId u (db (snd (deleteNote now noteId userId s))) =
      Inl NoteNotFoundOrAccessDenied"
    using deleted_reads(1) [OF gone] by simp
  show "\<forall>u. noteId \<notin> n_id ` set (getAllNotes u (db (snd (deleteNote now noteId userId s))))"
    using deleted_reads(2) [OF gone] by simp
  show "\<forall>matches u k. noteId \<notin> n_id ` set (searchNotesByKeywords matches u k
      (db (snd (deleteNote now noteId userId s))))"
    using deleted_reads(3) [OF gone] by simp
  show "\<forall>u t c v. fst (updateNote noteId u t c v (snd (deleteNote now noteId userId s))) =
      Inl NoteNotFound"
    using deleted_writes(1) [OF gone] by simp
  show "\<forall>u w p. fst (shareNote noteId u w p (snd (deleteNote now noteId userId s))) =
      Inl (if u = w then CannotShareWithYourself else NoteNotFoundOrPermissionDenied)"
    using deleted_writes(3) [OF gone] by blast
qed

text \<open>
  In the example the editor (user 2) cannot delete note 1; the owner can, at time 99, and
  the note is then neither readable nor updatable, with its two history rows in place.
\<close>

theorem delete_owner_only_witness:
  "deleteNote 99 1 2 example = (Inl NoteNotFoundOrPermissionDenied, example) \<and>
   fst (deleteNote 99 1 1 example) = Inr ''Note deleted successfully'' \<and>
   d_notes (db (snd (deleteNote 99 1 1 example))) = [example_note\<lparr>n_deletedAt := Some 99\<rparr>] \<and>
   d_versions (db (snd (deleteNote 99 1 1 example))) = d_versions (db example) \<and>
   getNoteById 1 1 (db (snd (deleteNote 99 1 1 example))) = Inl NoteNotFoundOrAccessDenied \<and>
   fst (updateNote 1 1 ''list'' ''bread'' 2 (snd (deleteNote 99 1 1 example))) = Inl NoteNotFound"
proof -
  have pk: "distinct (map n_id (d_notes (db example)))"
    by (simp add: example_db)
  have row: "example_note \<in> set (d_notes (db example))" "n_id example_note = 1"
    "live example_note"
    by (simp_all add: example_db)
  have other: "n_userId example_note \<noteq> 2" and owner: "n_userId example_note = 1"
    by simp_all
  note refused = delete_owner_only [OF pk row, of 2 99, THEN conjunct1, THEN mp, OF other]
  note deleted = delete_owner_only [OF pk row, of 1 99, THEN conjunct2, THEN mp, OF owner]
  from deleted have after: "db (snd (deleteNote 99 1 1 example)) =
      (db example)\<lparr>d_notes := map (\<lambda>m. if n_id m = 1 then example_note\<lparr>n_deletedAt := Some 99\<rparr>
                                        else m) (d_notes (db example))\<rparr>"
    by blast
  have "d_notes (db (snd (deleteNote 99 1 1 example))) = [example_note\<lparr>n_deletedAt := Some 99\<rparr>]"
    and "d_versions (db (snd (deleteNote 99 1 1 example))) = d_versions (db example)"
    unfolding after by (simp_all add: example_db)
  moreover from deleted have "fst (deleteNote 99 1 1 example) = Inr ''Note deleted successfully''"
    and "getNoteById 1 1 (db (snd (deleteNote 99 1 1 example))) = Inl NoteNotFoundOrAccessDenied"
    and "fst (updateNote 1 1 ''list'' ''bread'' 2 (snd (deleteNote 99 1 1 example))) =
      Inl NoteNotFound"
    by blast+
  ultimately show ?thesis
    using refused by blast
qed

section \<open>What a stranger learns\<close>

text \<open>
  Claim C6 says that a caller without any relation to a note gets the same error from a
  read or a write whether the note exists or not. For \<^verbatim>\<open>updateNote\<close> this is not so:
  user 4 of the example, who neither owns note 1 nor has a share on it, is told
  \<^verbatim>\<open>Permission denied\<close> for note 1 and \<^verbatim>\<open>Note not found\<close> for note 7, which does not exist.
\<close>

theorem update_tells_denied_from_missing:
  "4 \<in> set (d_users (db example)) \<and>
   example_note \<in> set (d_notes (db example)) \<and>
   n_userId example_note \<noteq> 4 \<and>
   \<not> shared_with (db example) 4 example_note \<and>
   7 \<notin> n_id ` set (d_notes (db example)) \<and>
   fst (updateNote 1 4 ''list'' ''bread'' 2 example) = Inl PermissionDenied \<and>
   fst (updateNote 7 4 ''list'' ''bread'' 2 example) = Inl NoteNotFound \<and>
   message PermissionDenied \<noteq> message NoteNotFound"
  by (simp add: example_db shared_with_def updateNote_def in_transaction_def update_tx_def
      edit_shares_def emit_def Let_def)

text \<open>
  Claim C6, amended. Let the caller neither own the note \<open>n\<close> nor have a share on it, and
  let \<open>missing\<close> be an id that no note has. Reading by id gives the same error for both
  ids, and reverting, deleting, sharing and attaching give the same result for both ids
  (the same error and the same state). Updating is the exception: for the missing id it
  fails with \<^verbatim>\<open>Note not found\<close>, for \<open>n\<close> it fails with \<^verbatim>\<open>Permission denied\<close> when \<open>n\<close> is live
  (and with \<^verbatim>\<open>Note not found\<close> when \<open>n\<close> is soft-deleted).
\<close>

theorem stranger_cannot_probe:
  assumes pk: "distinct (map n_id (d_notes (db s)))"
      and row: "n \<in> set (d_notes (db s))" "n_id n = noteId"
      and stranger: "n_userId n \<noteq> userId" "\<not> shared_with (db s) userId n"
      and absent: "missing \<notin> n_id ` set (d_notes (db s))"
  shows "getNoteById noteId userId (db s) = Inl NoteNotFoundOrAccessDenied \<and>
         getNoteById missing userId (db s) = Inl NoteNotFoundOrAccessDenied \<and>
         revertToVersion noteId userId target s = revertToVersion missing userId target s \<and>
         deleteNote now noteId userId s = deleteNote now missing userId s \<and>
         shareNote noteId userId w p s = shareNote missing userId w p s \<and>
         addAttachment noteId userId file s = addAttachment missing userId file s \<and>
         fst (updateNote missing userId t c v s) = Inl NoteNotFound \<and>
         fst (updateNote noteId userId t c v s) =
           Inl (if live n then PermissionDenied else NoteNotFound)"
proof -
  have only: "\<And>m. m \<in> set (d_notes (db s)) \<Longrightarrow> n_id m = noteId \<Longrightarrow> m = n"
    using pk row by (auto simp: distinct_map inj_on_def)
  have no_edit: "edit_shares (n_id n) userId (db s) = []"
    using stranger(2) by (auto simp: edit_shares_def shared_with_def filter_empty_conv)
  have r1: "find (\<lambda>m. n_id m = noteId \<and> readable (db s) userId m) (d_notes (db s)) = None"
    using only stranger by (auto simp: find_None_all readable_def)
  have r2: "find (\<lambda>m. n_id m = missing \<and> readable (db s) userId m) (d_notes (db s)) = None"
    using absent by (auto simp: find_None_all)
  have o1: "find (\<lambda>m. n_id m = noteId \<and> n_userId m = userId \<and> live m) (d_notes (db s)) = None"
    using only stranger(1) by (auto simp: find_None_all)
  have o2: "find (\<lambda>m. n_id m = missing \<and> n_userId m = userId \<and> live m) (d_notes (db s)) = None"
    using absent by (auto simp: find_None_all)
  have a1: "find (\<lambda>m. n_id m = noteId \<and>
              (n_userId m = userId \<or> length (edit_shares (n_id m) userId (db s)) > 0) \<and> live m)
              (d_notes (db s)) = None"
    using only stranger(1) no_edit by (auto simp: find_None_all)
  have a2: "find (\<lambda>m. n_id m = missing \<and>
              (n_userId m = userId \<or> length (edit_shares (n_id m) userId (db s)) > 0) \<and> live m)
              (d_notes (db s)) = None"
    using absent by (auto simp: find_None_all)
  have u2: "find (\<lambda>m. n_id m = missing \<and> live m) (d_notes (db s)) = None"
    using absent by (auto simp: find_None_all)
  have u1: "find (\<lambda>m. n_id m = noteId \<and> live m) (d_notes (db s)) =
      (if live n then Some n else None)"
  proof (cases "live n")
    case True
    then have "find (\<lambda>m. n_id m = noteId \<and> live m) (d_notes (db s)) = Some n"
      using pk row by (intro find_unique_key [where key = n_id]) auto
    with True show ?thesis by simp
  next
    case False
    then have "find (\<lambda>m. n_id m = noteId \<and> live m) (d_notes (db s)) = None"
      using only by (auto simp: find_None_all)
    with False show ?thesis by simp
  qed
  have "getNoteById noteId userId (db s) = Inl NoteNotFoundOrAccessDenied"
    using r1 by (simp add: getNoteById_def)
  moreover have "getNoteById missing userId (db s) = Inl NoteNotFoundOrAccessDenied"
    using r2 by (simp add: getNoteById_def)
  moreover have "revertToVersion noteId userId target s = revertToVersion missing userId target s"
    using o1 o2 by (simp add: revertToVersion_def in_transaction_Inl revert_tx_def)
  moreover have "deleteNote now noteId userId s = deleteNote now missing userId s"
    using o1 o2 by (simp add: deleteNote_def)
  moreover have "shareNote noteId userId w p s = shareNote missing userId w p s"
    using o1 o2 by (simp add: shareNote_def)
  moreover have "addAttachment noteId userId file s = addAttachment missing userId file s"
    using a1 a2 by (simp add: addAttachment_def)
  moreover have "fst (updateNote missing userId t c v s) = Inl NoteNotFound"
    using u2 by (simp add: updateNote_def in_transaction_Inl update_tx_def)
  moreover have "fst (updateNote noteId userId t c v s) =
      Inl (if live n then PermissionDenied else NoteNotFound)"
    using u1 stranger(1) no_edit
    by (simp add: updateNote_def in_transaction_def update_tx_def Let_def)
  ultimately show ?thesis by blast
qed

text \<open>User 4 of the example, note 1 and the missing id 7.\<close>

theorem stranger_cannot_probe_witness:
  "getNoteById 1 4 (db example) = Inl NoteNotFoundOrAccessDenied \<and>
   getNoteById 7 4 (db example) = Inl NoteNotFoundOrAccessDenied \<and>
   revertToVersion 1 4 1 example = revertToVersion 7 4 1 example \<and>
   deleteNote 99 1 4 example = deleteNote 99 7 4 example \<and>
   shareNote 1 4 2 (Some Edit) example = shareNote 7 4 2 (Some Edit) example \<and>
   fst (updateNote 7 4 ''list'' ''bread'' 2 example) = Inl NoteNotFound \<and>
   fst (updateNote 1 4 ''list'' ''bread'' 2 example) = Inl PermissionDenied"
proof -
  have pk: "distinct (map n_id (d_notes (db example)))"
    by (simp add: example_db)
  have row: "example_note \<in> set (d_notes (db example))" "n_id example_note = 1"
    by (simp_all add: example_db)
  have stranger: "n_userId example_note \<noteq> 4" "\<not> shared_with (db example) 4 example_note"
    by (simp_all add: example_db shared_with_def)
  have absent: "7 \<notin> n_id ` set (d_notes (db example))"
    by (simp add: example_db)
  show ?thesis
    using stranger_cannot_probe [OF pk row stranger absent, of 1 99 2 "Some Edit" _ "''list''" "''bread''" 2]
    by simp
qed

section \<open>The order of the version history\<close>

text \<open>
  Claim C9 says that the versions returned with a note are ordered by version number,
  newest first. The query of \<^verbatim>\<open>getNoteById\<close> asks for this with \<^verbatim>\<open>order: [["version", "DESC"]]\<close>
  inside the include of the versions, but the include is not loaded by a separate query,
  so the order does not reach the database: for note 1 of the example, whose history has
  the versions 1 and 2, the owner gets them as 1, 2.
\<close>

theorem versions_come_in_table_order:
  "map_sum id (map v_version \<circ> the_versions) (getNoteById 1 1 (db example)) = Inr [1, 2]"
  by (simp add: getNoteById_def example_db readable_def load_many_def)

text \<open>With \<^verbatim>\<open>separate: true\<close> the same include would yield the versions newest first.\<close>

lemma separate_order_descends:
  "sorted (rev (map v_version
     (load_many \<lparr>order = Some (v_version, DESC), separate = True\<rparr> rows)))"
  by (simp add: load_many_def ordered_def rev_map [symmetric])

section \<open>Sharing twice\<close>

lemma fold_max_bounds: "a \<le> fold max xs (a::nat) \<and> (\<forall>x \<in> set xs. x \<le> fold max xs a)"
proof (induction xs arbitrary: a)
  case Nil
  show ?case by simp
next
  case (Cons y ys)
  have "max y a \<le> fold max ys (max y a)" and "\<forall>x \<in> set ys. x \<le> fold max ys (max y a)"
    using Cons.IH [of "max y a"] by simp_all
  then show ?case by auto
qed

lemma next_id_fresh: "i \<in> set ids \<Longrightarrow> i < next_id ids"
  using fold_max_bounds [of 0 ids] by (auto simp: next_id_def less_Suc_eq_le)

lemma next_id_new: "next_id ids \<notin> set ids"
  using next_id_fresh [of "next_id ids" ids] by auto

lemma filter_key_single:
  assumes "distinct (map key xs)" and "x \<in> set xs"
  shows "filter (\<lambda>y. key y = key x) xs = [x]"
  using assms
proof (induction xs)
  case Nil
  then show ?case by simp
next
  case (Cons a xs)
  show ?case
  proof (cases "a = x")
    case True
    from Cons.prems(1) True have "key x \<notin> key ` set xs" by simp
    then have "\<forall>y \<in> set xs. key y \<noteq> key x" by (metis imageI)
    then have "filter (\<lambda>y. key y = key x) xs = []"
      by (simp add: filter_empty_conv)
    with True show ?thesis by simp
  next
    case False
    with Cons.prems have "x \<in> set xs" by simp
    moreover from this Cons.prems(1) have "key a \<noteq> key x" by auto
    ultimately show ?thesis using Cons.IH Cons.prems(1) by simp
  qed
qed

text \<open>
  One successful \<^verbatim>\<open>shareNote\<close>: afterwards the note has exactly one share row for the
  user, with the permission just granted; a row is added only if there was none.
\<close>

lemma share_once:
  assumes keys: "share_keys (db s)"
      and pk: "distinct (map n_id (d_notes (db s)))"
      and row: "n \<in> set (d_notes (db s))" "n_id n = noteId" "live n"
      and owner: "n_userId n = ownerId"
      and other: "ownerId \<noteq> userId"
      and user: "userId \<in> set (d_users (db s))"
  shows "\<exists>sh. fst (shareNote noteId ownerId userId p s) = Inr sh"
    and "map s_permission (grants (db (snd (shareNote noteId ownerId userId p s))) noteId userId) =
           [or_read p]"
    and "share_keys (db (snd (shareNote noteId ownerId userId p s)))"
    and "d_notes (db (snd (shareNote noteId ownerId userId p s))) = d_notes (db s)"
    and "d_users (db (snd (shareNote noteId ownerId userId p s))) = d_users (db s)"
    and "length (d_shares (db (snd (shareNote noteId ownerId userId p s)))) =
           (if grants (db s) noteId userId = [] then Suc (length (d_shares (db s)))
            else length (d_shares (db s)))"
proof -
  let ?pair = "\<lambda>sh. (s_noteId sh, s_sharedWithUserId sh)"
  let ?P = "\<lambda>sh. s_noteId sh = noteId \<and> s_sharedWithUserId sh = userId"
  have found: "find (\<lambda>m. n_id m = noteId \<and> n_userId m = ownerId \<and> live m) (d_notes (db s)) = Some n"
    using find_owned [OF pk row(1,2), of ownerId] owner row(3) by simp
  show "\<exists>sh. fst (shareNote noteId ownerId userId p s) = Inr sh"
    using found other user
    by (simp add: shareNote_def Let_def split: prod.splits)
  have same_notes: "d_notes (db (snd (shareNote noteId ownerId userId p s))) = d_notes (db s)"
    and same_users: "d_users (db (snd (shareNote noteId ownerId userId p s))) = d_users (db s)"
    using found other user
    by (auto simp: shareNote_def Let_def NoteShare_findOrCreate_def NoteShare_save_def
        split: prod.splits option.splits)
  show "d_notes (db (snd (shareNote noteId ownerId userId p s))) = d_notes (db s)" by (rule same_notes)
  show "d_users (db (snd (shareNote noteId ownerId userId p s))) = d_users (db s)" by (rule same_users)
  show "map s_permission (grants (db (snd (shareNote noteId ownerId userId p s))) noteId userId) =
           [or_read p]"
    and "share_keys (db (snd (shareNote noteId ownerId userId p s)))"
    and "length (d_shares (db (snd (shareNote noteId ownerId userId p s)))) =
           (if grants (db s) noteId userId = [] then Suc (length (d_shares (db s)))
            else length (d_shares (db s)))"
  proof (atomize (full), cases "find ?P (d_shares (db s))")
    case None
    then have none: "\<forall>sh \<in> set (d_shares (db s)). \<not> ?P sh"
      by (simp add: find_None_all)
    then have empty: "filter ?P (d_shares (db s)) = []"
      by (simp add: filter_empty_conv)
    have after: "d_shares (db (snd (shareNote noteId ownerId userId p s))) =
        d_shares (db s) @ [\<lparr>s_id = next_id (map s_id (d_shares (db s))), s_noteId = noteId,
                             s_sharedWithUserId = userId, s_permission = or_read p\<rparr>]"
      using found other user None
      by (simp add: shareNote_def Let_def NoteShare_findOrCreate_def)
    have "(noteId, userId) \<notin> ?pair ` set (d_shares (db s))"
      using none by auto
    then show "map s_permission (grants (db (snd (shareNote noteId ownerId userId p s))) noteId userId) =
           [or_read p] \<and>
       share_keys (db (snd (shareNote noteId ownerId userId p s))) \<and>
       length (d_shares (db (snd (shareNote noteId ownerId userId p s)))) =
           (if grants (db s) noteId userId = [] then Suc (length (d_shares (db s)))
            else length (d_shares (db s)))"
      using keys empty next_id_new [of "map s_id (d_shares (db s))"]
      by (simp add: grants_def after share_keys_def)
  next
    case (Some sh0)
    then have sh0: "sh0 \<in> set (d_shares (db s))" "?P sh0"
      by (auto simp: find_Some_iff)
    let ?f = "\<lambda>r. if s_id r = s_id sh0 then sh0\<lparr>s_permission := or_read p\<rparr> else r"
    have after: "d_shares (db (snd (shareNote noteId ownerId userId p s))) =
        map ?f (d_shares (db s))"
      using found other user Some
      by (simp add: shareNote_def Let_def NoteShare_findOrCreate_def NoteShare_save_def)
    have same_row: "\<And>r. r \<in> set (d_shares (db s)) \<Longrightarrow> s_id r = s_id sh0 \<Longrightarrow> r = sh0"
      using keys sh0(1) by (auto simp: share_keys_def distinct_map inj_on_def)
    have ids: "map s_id (map ?f (d_shares (db s))) = map s_id (d_shares (db s))"
      by (rule map_idI [THEN trans [rotated]]) (auto simp: comp_def)
    have pairs: "map ?pair (map ?f (d_shares (db s))) = map ?pair (d_shares (db s))"
      using same_row by (auto simp: comp_def)
    have "filter ?P (map ?f (d_shares (db s))) = map ?f (filter (\<lambda>r. ?pair r = ?pair sh0) (d_shares (db s)))"
      using same_row sh0(2) by (auto simp: filter_map comp_def intro!: filter_cong arg_cong [where f = "map ?f"])
    also have "filter (\<lambda>r. ?pair r = ?pair sh0) (d_shares (db s)) = [sh0]"
      using keys sh0(1) by (intro filter_key_single) (simp_all add: share_keys_def)
    finally have one: "filter ?P (map ?f (d_shares (db s))) = [sh0\<lparr>s_permission := or_read p\<rparr>]"
      by simp
    have nonempty: "grants (db s) noteId userId \<noteq> []"
      using sh0 by (auto simp: grants_def filter_empty_conv)
    show "map s_permission (grants (db (snd (shareNote noteId ownerId userId p s))) noteId userId) =
           [or_read p] \<and>
       share_keys (db (snd (shareNote noteId ownerId userId p s))) \<and>
       length (d_shares (db (snd (shareNote noteId ownerId userId p s)))) =
           (if grants (db s) noteId userId = [] then Suc (length (d_shares (db s)))
            else length (d_shares (db s)))"
      using keys one nonempty ids pairs
      by (simp add: grants_def after share_keys_def del: map_map)
  qed
qed

text \<open>
  Claim C7. Let the share table satisfy its key constraints, let \<open>n\<close> be a live note of
  the owner, and let the target be another, existing user. Sharing the note with the
  target at \<^verbatim>\<open>read\<close> and then at \<^verbatim>\<open>edit\<close> succeeds both times, and afterwards the note has
  exactly one share row for the target, with the permission \<^verbatim>\<open>edit\<close>; the second call adds
  no row.
\<close>

theorem reshare_overwrites:
  assumes keys: "share_keys (db s)"
      and pk: "distinct (map n_id (d_notes (db s)))"
      and row: "n \<in> set (d_notes (db s))" "n_id n = noteId" "live n"
      and owner: "n_userId n = ownerId"
      and other: "ownerId \<noteq> userId"
      and user: "userId \<in> set (d_users (db s))"
  shows "(\<exists>sh. fst (shareNote noteId ownerId userId (Some Read) s) = Inr sh) \<and>
         (\<exists>sh. fst (shareNote noteId ownerId userId (Some Edit)
                      (snd (shareNote noteId ownerId userId (Some Read) s))) = Inr sh) \<and>
         map s_permission
           (grants (db (snd (shareNote noteId ownerId userId (Some Edit)
                               (snd (shareNote noteId ownerId userId (Some Read) s)))))
              noteId userId) = [Edit] \<and>
         length (d_shares (db (snd (shareNote noteId ownerId userId (Some Edit)
                               (snd (shareNote noteId ownerId userId (Some Read) s)))))) =
           length (d_shares (db (snd (shareNote noteId ownerId userId (Some Read) s))))"
proof -
  let ?s1 = "snd (shareNote noteId ownerId userId (Some Read) s)"
  note first = share_once [OF keys pk row owner other user, of "Some Read"]
  have keys1: "share_keys (db ?s1)"
    and pk1: "distinct (map n_id (d_notes (db ?s1)))"
    and row1: "n \<in> set (d_notes (db ?s1))"
    and user1: "userId \<in> set (d_users (db ?s1))"
    using first(3,4,5) pk row(1) user by simp_all
  note second = share_once [OF keys1 pk1 row1 row(2,3) owner other user1, of "Some Edit"]
  have "grants (db ?s1) noteId userId \<noteq> []"
    using first(2) by auto
  then have "length (d_shares (db (snd (shareNote noteId ownerId userId (Some Edit) ?s1)))) =
      length (d_shares (db ?s1))"
    using second(6) by simp
  with first(1) second(1,2) show ?thesis
    by (simp add: or_read_def)
qed

text \<open>
  In the example the owner shares note 1 with user 4, who had no share: the table grows
  from two rows to three with the first call and stays at three with the second.
\<close>

theorem reshare_overwrites_witness:
  "map s_permission
     (grants (db (snd (shareNote 1 1 4 (Some Edit) (snd (shareNote 1 1 4 (Some Read) example)))))
        1 4) = [Edit] \<and>
   length (d_shares (db (snd (shareNote 1 1 4 (Some Edit)
                                  (snd (shareNote 1 1 4 (Some Read) example)))))) = 3 \<and>
   length (d_shares (db example)) = 2"
proof -
  have keys: "share_keys (db example)"
    by (simp add: share_keys_def example_db)
  have pk: "distinct (map n_id (d_notes (db example)))"
    by (simp add: example_db)
  have row: "example_note \<in> set (d_notes (db example))" "n_id example_note = 1"
    "live example_note"
    by (simp_all add: example_db)
  have owner: "n_userId example_note = 1" and other: "(1::nat) \<noteq> 4"
    by simp_all
  have user: "4 \<in> set (d_users (db example))"
    by (simp add: example_db)
  have "length (d_shares (db (snd (shareNote 1 1 4 (Some Read) example)))) = 3"
    by (simp add: shareNote_def example_db NoteShare_findOrCreate_def Let_def)
  then show ?thesis
    using reshare_overwrites [OF keys pk row owner other user]
    by (simp add: example_db)
qed

end
